theory Spec2Isabelle
  imports Complex_Main
begin

section \<open>JavaScript values\<close>

text \<open>
  The two endpoints of worker-proxy exchange messages that the host clones, and they inspect
  values of any type (\<^verbatim>\<open>val: any\<close>) before trusting them. The model therefore works on
  untyped values: the primitives, functions, arrays, and objects with their own properties
  and a prototype.

  A number is a finite rational, NaN or an infinity: enough for \<^verbatim>\<open>Number.isSafeInteger\<close>,
  for truthiness and for the length of an array-like object.

  A function is known by its identity only. \<open>Own n\<close> is the method \<open>n\<close> of the class
  \<^verbatim>\<open>WorkerServiceClass\<close>; \<open>Host n\<close> is any function that is not defined in this repository:
  a member of the service, a callback, a method of the worker or a built-in of the host;
  \<open>Resolve p\<close> and \<open>Reject p\<close> are the two functions that settle the promise \<open>p\<close>.

  An object is \<open>Root ps\<close>, whose prototype is \<^verbatim>\<open>null\<close>, or \<open>Inherit ps p\<close>, whose
  prototype is the object \<open>p\<close>; \<open>ps\<close> lists its own properties in creation order.
  Two objects are the same object when they are equal as values.
\<close>

datatype number = Finite rat | NaN | Infinity bool

datatype fid = Own string | Host string | Resolve nat | Reject nat

datatype jsval =
    VUndefined
  | VNull
  | VBool bool
  | VNum number
  | VStr string
  | VFun fid
  | VArr "jsval list"
  | VObj jsobj
and jsobj =
    Root "(string \<times> jsval) list"
  | Inherit "(string \<times> jsval) list" jsobj

text \<open>The outcome of calling a function that this repository does not define.\<close>

datatype outcome =
    Returned jsval
  | Thrown jsval
  | Resolved jsval
  | Rejected jsval
  | Unsettled

type_synonym env = "string \<Rightarrow> jsval \<Rightarrow> jsval list \<Rightarrow> outcome"

subsection \<open>The host's objects\<close>

text \<open>
  \<^verbatim>\<open>Object.prototype\<close> and \<^verbatim>\<open>Array.prototype\<close> with the members that every ECMAScript 5
  host defines (later editions add to them). \<^verbatim>\<open>__proto__\<close> is an accessor of the root:
  reading it yields the prototype of the object it is read from.
\<close>

definition host_members :: "string \<Rightarrow> string list \<Rightarrow> (string \<times> jsval) list" where
  "host_members prefix names = map (\<lambda>n. (n, VFun (Host (prefix @ n)))) names"

definition object_prototype :: jsobj where
  "object_prototype = Root (host_members ''Object.prototype.''
     [''constructor'', ''toString'', ''toLocaleString'', ''valueOf'', ''hasOwnProperty'',
      ''isPrototypeOf'', ''propertyIsEnumerable'', ''__defineGetter__'', ''__defineSetter__'',
      ''__lookupGetter__'', ''__lookupSetter__'', ''__proto__''])"

definition array_prototype :: jsobj where
  "array_prototype = Inherit
     ((''length'', VNum (Finite 0)) # host_members ''Array.prototype.''
       [''constructor'', ''toString'', ''toLocaleString'', ''concat'', ''join'', ''pop'',
        ''push'', ''reverse'', ''shift'', ''slice'', ''sort'', ''splice'', ''unshift'',
        ''indexOf'', ''lastIndexOf'', ''every'', ''some'', ''forEach'', ''map'', ''filter'',
        ''reduce'', ''reduceRight''])
     object_prototype"

text \<open>An object literal \<^verbatim>\<open>{ k1: v1, ... }\<close>.\<close>

definition literal :: "(string \<times> jsval) list \<Rightarrow> jsval" where
  "literal ps = VObj (Inherit ps object_prototype)"

text \<open>
  \<^verbatim>\<open>new errType(message)\<close>. The name is kept with the message as a property of the error
  itself, and the stack, which differs from host to host, is reduced to its head line.
\<close>

definition new_error :: "string \<Rightarrow> string \<Rightarrow> jsval" where
  "new_error name message =
     literal [(''name'', VStr name), (''message'', VStr message),
              (''stack'', VStr (name @ '': '' @ message))]"

subsection \<open>Reading properties\<close>

fun digit :: "nat \<Rightarrow> char" where
  "digit n = char_of (48 + n)"

fun string_of_nat :: "nat \<Rightarrow> string" where
  "string_of_nat n = (if n < 10 then [digit n] else string_of_nat (n div 10) @ [digit (n mod 10)])"

declare string_of_nat.simps [simp del]


fun lookup :: "jsobj \<Rightarrow> string \<Rightarrow> jsval option" where
  "lookup (Root ps) k = map_of ps k"
| "lookup (Inherit ps p) k = (case map_of ps k of Some v \<Rightarrow> Some v | None \<Rightarrow> lookup p k)"

text \<open>\<^verbatim>\<open>Object.getPrototypeOf\<close>, of an object.\<close>

fun getPrototypeOf :: "jsobj \<Rightarrow> jsval" where
  "getPrototypeOf (Root ps) = VNull"
| "getPrototypeOf (Inherit ps p) = VObj p"

text \<open>An array seen as an object: its elements under their indices, then its length.\<close>

definition array_object :: "jsval list \<Rightarrow> jsobj" where
  "array_object xs =
     Inherit (zip (map string_of_nat [0..<length xs]) xs
              @ [(''length'', VNum (Finite (of_nat (length xs))))])
       array_prototype"

definition getMember :: "jsobj \<Rightarrow> string \<Rightarrow> jsval" where
  "getMember obj k =
     (case lookup obj k of
        None \<Rightarrow> VUndefined
      | Some v \<Rightarrow>
          if k = ''__proto__'' \<and> v = VFun (Host ''Object.prototype.__proto__'')
          then getPrototypeOf obj else v)"

text \<open>
  \<^verbatim>\<open>val[k]\<close>, for a value other than \<^verbatim>\<open>undefined\<close> and \<^verbatim>\<open>null\<close> (reading a property of
  those throws, and every place that may do so says it). The members of a primitive or of a
  function, other than the length of a string, are not modelled: they read as \<^verbatim>\<open>undefined\<close>,
  which is what every key that this program reads from such a value yields.
\<close>

fun getProp :: "jsval \<Rightarrow> string \<Rightarrow> jsval" where
  "getProp (VObj obj) k = getMember obj k"
| "getProp (VArr xs) k = getMember (array_object xs) k"
| "getProp (VStr s) k =
     (if k = ''length'' then VNum (Finite (of_nat (length s))) else VUndefined)"
| "getProp v k = VUndefined"

subsection \<open>The shared predicates\<close>

text \<open>\<^verbatim>\<open>!!val\<close>\<close>

fun truthy :: "jsval \<Rightarrow> bool" where
  "truthy VUndefined = False"
| "truthy VNull = False"
| "truthy (VBool b) = b"
| "truthy (VNum (Finite q)) = (q \<noteq> 0)"
| "truthy (VNum NaN) = False"
| "truthy (VNum (Infinity b)) = True"
| "truthy (VStr s) = (s \<noteq> [])"
| "truthy (VFun f) = True"
| "truthy (VArr xs) = True"
| "truthy (VObj obj) = True"

text \<open>\<^verbatim>\<open>typeof val\<close>\<close>

fun typeof :: "jsval \<Rightarrow> string" where
  "typeof VUndefined = ''undefined''"
| "typeof VNull = ''object''"
| "typeof (VBool b) = ''boolean''"
| "typeof (VNum n) = ''number''"
| "typeof (VStr s) = ''string''"
| "typeof (VFun f) = ''function''"
| "typeof (VArr xs) = ''object''"
| "typeof (VObj obj) = ''object''"

definition isObject :: "jsval \<Rightarrow> bool" where
  "isObject val = (truthy val \<and> typeof val = ''object'')"

definition isFunction :: "jsval \<Rightarrow> bool" where
  "isFunction val = (typeof val = ''function'')"

definition isString :: "jsval \<Rightarrow> bool" where
  "isString val = (typeof val = ''string'')"

definition isNumber :: "jsval \<Rightarrow> bool" where
  "isNumber val = (typeof val = ''number'')"

definition isUndefined :: "jsval \<Rightarrow> bool" where
  "isUndefined val = (typeof val = ''undefined'')"

definition isArrayLike :: "jsval \<Rightarrow> bool" where
  "isArrayLike val = (isObject val \<and> isNumber (getProp val ''length''))"


text \<open>\<^verbatim>\<open>Number.isSafeInteger\<close>: an integer of magnitude at most \<open>2^53 - 1\<close>.\<close>

fun isSafeInteger :: "jsval \<Rightarrow> bool" where
  "isSafeInteger (VNum (Finite q)) = (of_int \<lfloor>q\<rfloor> = q \<and> \<bar>q\<bar> \<le> 2 ^ 53 - 1)"
| "isSafeInteger v = False"

text \<open>
  \<^verbatim>\<open>assert\<close> throws \<^verbatim>\<open>new errType(message)\<close> when its condition is false: \<open>Some\<close> of the
  error thrown.
\<close>

definition assert :: "bool \<Rightarrow> string \<Rightarrow> string \<Rightarrow> jsval option" where
  "assert val errType message = (if val then None else Some (new_error errType message))"

text \<open>
  The arguments that \<^verbatim>\<open>Function.prototype.apply\<close> takes from an array-like value: as many
  as its length, truncated to an index count, read under the decimal keys.
\<close>

fun toLength :: "number \<Rightarrow> nat" where
  "toLength (Finite q) = (if q \<le> 0 then 0 else min (nat \<lfloor>q\<rfloor>) (2 ^ 53 - 1))"
| "toLength NaN = 0"
| "toLength (Infinity b) = (if b then 2 ^ 53 - 1 else 0)"

fun argumentsList :: "jsval \<Rightarrow> jsval list" where
  "argumentsList (VArr xs) = xs"
| "argumentsList (VObj obj) =
     (case getMember obj ''length'' of
        VNum n \<Rightarrow> map (\<lambda>i. getMember obj (string_of_nat i)) [0..<toLength n]
      | _ \<Rightarrow> [])"
| "argumentsList v = []"


text \<open>
  \<^verbatim>\<open>xs.indexOf(v)\<close>. Strict equality is equality of values here: the program searches
  lists of strings for a string.
\<close>

fun indexOf :: "'a list \<Rightarrow> 'a \<Rightarrow> int" where
  "indexOf [] v = - 1"
| "indexOf (x # xs) v =
     (if x = v then 0 else (let i = indexOf xs v in if i < 0 then - 1 else i + 1))"






section \<open>The callee endpoint: \<^verbatim>\<open>src/worker/index.ts\<close>\<close>

subsection \<open>Validation\<close>





definition isValidWorkerServiceMethodCall :: "jsval \<Rightarrow> bool" where
  "isValidWorkerServiceMethodCall val =
     (isObject val \<and> (\<not> truthy (getProp val ''target'') \<or> isString (getProp val ''target'')) \<and>
      isString (getProp val ''method'') \<and>
      (\<not> truthy (getProp val ''args'') \<or> isArrayLike (getProp val ''args'')))"

subsection \<open>The names of the members of the service\<close>






subsection \<open>The endpoint\<close>

record callee =
  worker :: jsval
  service :: jsval
  onterminate :: jsval
  methods :: "string list"




subsection \<open>Dispatch\<close>

text \<open>
  The endpoint as a value, for the reads \<^verbatim>\<open>this[spec.target]\<close> and \<^verbatim>\<open>target[spec.method]\<close>:
  the four properties that the constructor assigns, over the methods of the class.
\<close>

definition class_prototype :: jsobj where
  "class_prototype = Inherit
     (map (\<lambda>n. (n, VFun (Own n)))
        [''constructor'', ''onmessage'', ''callTargetMethod'', ''getServiceMethods'',
         ''resolve'', ''reject'', ''unknown''])
     object_prototype"

definition this_object :: "callee \<Rightarrow> jsval" where
  "this_object c = VObj (Inherit
     [(''worker'', worker c), (''onterminate'', onterminate c), (''service'', service c),
      (''methods'', VArr (map VStr (methods c)))]
     class_prototype)"

definition nullish :: "jsval \<Rightarrow> bool" where
  "nullish val = (val = VUndefined \<or> val = VNull)"

text \<open>
  The key that a value denotes in \<^verbatim>\<open>obj[key]\<close>: the value as a string. An array is the
  strings of its elements joined by commas, with the empty string for \<^verbatim>\<open>undefined\<close> and
  \<^verbatim>\<open>null\<close>. The result is \<open>None\<close> for a key that the model does not spell out: a number
  that is not a natural number, an object, a function, or an array that holds one of these.
  Such a key holds a digit, a comma or a bracket, or its conversion throws; it is the name
  of no member of the objects that this program reads with a computed key.
\<close>

fun join :: "string list \<Rightarrow> string" where
  "join [] = []"
| "join [s] = s"
| "join (s # t # ss) = s @ '','' @ join (t # ss)"

fun propertyKey :: "jsval \<Rightarrow> string option" where
  "propertyKey (VStr s) = Some s"
| "propertyKey VUndefined = Some ''undefined''"
| "propertyKey VNull = Some ''null''"
| "propertyKey (VBool b) = Some (if b then ''true'' else ''false'')"
| "propertyKey (VNum NaN) = Some ''NaN''"
| "propertyKey (VNum (Infinity b)) = Some (if b then ''Infinity'' else ''-Infinity'')"
| "propertyKey (VNum (Finite q)) =
     (if of_int \<lfloor>q\<rfloor> = q \<and> 0 \<le> q then Some (string_of_nat (nat \<lfloor>q\<rfloor>)) else None)"
| "propertyKey (VArr xs) =
     map_option join
       (those (map (\<lambda>x. if x = VUndefined \<or> x = VNull then Some [] else propertyKey x) xs))"
| "propertyKey (VFun f) = None"
| "propertyKey (VObj obj) = None"

definition getAt :: "jsval \<Rightarrow> jsval \<Rightarrow> jsval" where
  "getAt obj key = (case propertyKey key of Some k \<Rightarrow> getProp obj k | None \<Rightarrow> VUndefined)"

text \<open>
  \<open>callTargetMethod\<close> throws (\<open>Inl\<close>), or reaches
  \<^verbatim>\<open>method.apply(target, spec.args || [])\<close> with the \<open>(method, target, arguments)\<close> it
  returns here. Reading \<^verbatim>\<open>spec.uuid\<close> throws when \<open>spec\<close> is \<^verbatim>\<open>undefined\<close> or \<^verbatim>\<open>null\<close>.
\<close>

definition callTargetMethod :: "callee \<Rightarrow> jsval \<Rightarrow> jsval + (jsval \<times> jsval \<times> jsval)" where
  "callTargetMethod c spec =
     (if nullish spec then Inl (new_error ''TypeError'' ''Cannot read property of undefined'')
      else case assert (isSafeInteger (getProp spec ''uuid'')) ''TypeError'' ''invalid argument'' of
        Some err \<Rightarrow> Inl err
      | None \<Rightarrow>
     (case assert (isValidWorkerServiceMethodCall spec) ''TypeError'' ''invalid argument'' of
        Some err \<Rightarrow> Inl err
      | None \<Rightarrow>
          (let this = this_object c;
               target = (if isObject (getAt this (getProp spec ''target''))
                         then getAt this (getProp spec ''target'') else this);
               isValidMethod =
                 (if target \<noteq> service c
                  then isFunction (getAt target (getProp spec ''method''))
                  else indexOf (map VStr (methods c)) (getProp spec ''method'') \<ge> 0);
               method = (if isValidMethod then getAt target (getProp spec ''method'')
                         else getProp this ''unknown'')
           in Inr (method, target,
                   if truthy (getProp spec ''args'') then getProp spec ''args'' else VArr []))))"

text \<open>\<open>getServiceMethods\<close> and \<open>unknown\<close>, called on \<open>this\<close>.\<close>

definition getServiceMethods :: "jsval \<Rightarrow> outcome" where
  "getServiceMethods this = Returned (getProp this ''methods'')"

definition unknown :: outcome where
  "unknown = Rejected (new_error ''Error'' ''unknown method'')"

text \<open>
  \<^verbatim>\<open>method.apply(target, args)\<close>. A function of the host or of the service has the outcome
  that the environment gives it. The result is \<open>None\<close> when the request makes the endpoint
  call \<^verbatim>\<open>constructor\<close>, \<^verbatim>\<open>onmessage\<close>, \<^verbatim>\<open>callTargetMethod\<close>, \<^verbatim>\<open>resolve\<close> or \<^verbatim>\<open>reject\<close> on itself: the
  model does not follow such a request (nor one that reaches a function of the caller's
  side, which no value of the callee holds). Applying a value that is not a function throws.
\<close>

fun apply_method :: "env \<Rightarrow> jsval \<Rightarrow> jsval \<Rightarrow> jsval \<Rightarrow> outcome option" where
  "apply_method env (VFun (Own n)) target args =
     (if n = ''getServiceMethods'' then Some (getServiceMethods target)
      else if n = ''unknown'' then Some unknown
      else None)"
| "apply_method env (VFun (Host n)) target args = Some (env n target (argumentsList args))"
| "apply_method env (VFun f) target args = None"
| "apply_method env method target args =
     Some (Thrown (new_error ''TypeError'' ''method.apply is not a function''))"

text \<open>
  \<open>resolve\<close> and \<open>reject\<close> give the messages that they post to the worker, which takes
  every message. \<open>reject\<close> reads the name of the error first, which throws when the error is
  \<^verbatim>\<open>undefined\<close> or \<^verbatim>\<open>null\<close>: nothing is posted then.
\<close>

definition resolve :: "callee \<Rightarrow> jsval \<Rightarrow> jsval \<Rightarrow> jsval list" where
  "resolve c uuid res =
     [literal [(''uuid'', uuid), (''method'', VStr ''resolve''), (''args'', VArr [res])]]"

definition reject :: "callee \<Rightarrow> jsval \<Rightarrow> jsval \<Rightarrow> jsval list" where
  "reject c uuid err =
     (if nullish err then []
      else [literal [(''uuid'', uuid), (''method'', VStr ''reject''),
                     (''args'', VArr [literal [(''name'', getProp err ''name''),
                                               (''message'', getProp err ''message''),
                                               (''stack'', getProp err ''stack'')]])]])"

text \<open>
  \<open>onmessage env c data\<close> is the list of the messages that the endpoint posts for the event
  whose data is \<open>data\<close>; \<open>None\<close> as for \<open>apply_method\<close>. \<^verbatim>\<open>Promise.try\<close> makes one
  asynchronous outcome of a value returned, a promise returned and an exception thrown;
  nothing is posted while that outcome is not settled. When the data is \<^verbatim>\<open>undefined\<close> or
  \<^verbatim>\<open>null\<close>, reading \<^verbatim>\<open>event.data.uuid\<close> for the handlers throws and nothing is posted.
\<close>

definition onmessage :: "env \<Rightarrow> callee \<Rightarrow> jsval \<Rightarrow> jsval list option" where
  "onmessage env c data =
     (if nullish data then Some []
      else
        (let uuid = getProp data ''uuid'' in
         case callTargetMethod c data of
           Inl err \<Rightarrow> Some (reject c uuid err)
         | Inr (method, target, args) \<Rightarrow>
             (case apply_method env method target args of
                None \<Rightarrow> None
              | Some (Returned res) \<Rightarrow> Some (resolve c uuid res)
              | Some (Resolved res) \<Rightarrow> Some (resolve c uuid res)
              | Some (Thrown err) \<Rightarrow> Some (reject c uuid err)
              | Some (Rejected err) \<Rightarrow> Some (reject c uuid err)
              | Some Unsettled \<Rightarrow> Some [])))"


section \<open>The identifier allocator: \<^verbatim>\<open>src/lib/indexed-queue\<close>\<close>

text \<open>
  Modelled from the spec: the module \<^verbatim>\<open>lib/indexed-queue\<close>, which the caller endpoint
  imports, is not among the sources. The specification gives its contract: \<open>push\<close> stores a
  record under a newly chosen integer key that is not in use, and the allocator assigns
  monotonically increasing integer tokens; \<open>has\<close> is true iff a record is stored under the
  key; \<open>pop\<close> removes and returns the record stored under the key. \<open>pop\<close> of a key that is
  not stored is out of contract: it removes nothing here and returns no record.
  A key is an integer number; no other value is the key of a record.
\<close>

record 'a IndexedQueue =
  next_index :: nat
  entries :: "(nat \<times> 'a) list"

definition newIndexedQueue :: "'a IndexedQueue" where
  "newIndexedQueue = \<lparr> next_index = 0, entries = [] \<rparr>"

definition push :: "'a IndexedQueue \<Rightarrow> 'a \<Rightarrow> nat \<times> 'a IndexedQueue" where
  "push q val =
     (next_index q,
      q \<lparr> next_index := Suc (next_index q), entries := entries q @ [(next_index q, val)] \<rparr>)"

fun index_of :: "jsval \<Rightarrow> nat option" where
  "index_of (VNum (Finite q)) =
     (if of_int \<lfloor>q\<rfloor> = q \<and> 0 \<le> q then Some (nat \<lfloor>q\<rfloor>) else None)"
| "index_of v = None"

definition has :: "'a IndexedQueue \<Rightarrow> jsval \<Rightarrow> bool" where
  "has q uuid = (case index_of uuid of None \<Rightarrow> False | Some i \<Rightarrow> map_of (entries q) i \<noteq> None)"

definition pop :: "'a IndexedQueue \<Rightarrow> jsval \<Rightarrow> 'a option \<times> 'a IndexedQueue" where
  "pop q uuid =
     (case index_of uuid of
        None \<Rightarrow> (None, q)
      | Some i \<Rightarrow> (map_of (entries q) i, q \<lparr> entries := filter (\<lambda>e. fst e \<noteq> i) (entries q) \<rparr>))"

section \<open>The caller endpoint: \<^verbatim>\<open>src/index.ts\<close>\<close>

text \<open>
  A promise is pending, fulfilled with a value or failed with a reason. The endpoint derives
  a promise from the promise of a call with \<^verbatim>\<open>then\<close> in two places: the constructor, which
  builds the stand-in object from the list of methods, and \<open>terminate\<close>, which kills the
  worker. A timeout is a whole number of milliseconds, and so is the time.
\<close>

datatype 'a settled = Pending | Fulfilled 'a | Failed jsval

datatype continuation = Call_only | Then_proxy | Then_kill

record promise =
  call_uuid :: nat
  expires :: nat
  continuation :: continuation
  state :: "jsval settled"

text \<open>The class, with its static property, and an instance.\<close>

record ServiceProxyClass =
  timeout :: nat

record ServiceProxyOpts =
  opts_timeout :: "nat option"

record ServiceProxy =
  path :: string
  calls :: "jsval IndexedQueue"
  posted :: "jsval list"
  terminated :: bool
  promises :: "promise list"

text \<open>The specification of a call: \<^verbatim>\<open>WorkerServiceMethodCall\<close> with the optional timeout.\<close>

record MethodCall =
  call_target :: jsval
  call_method :: jsval
  call_args :: jsval
  call_timeout :: "nat option"

text \<open>\<^verbatim>\<open>static timeout = 3 * 60 * 1000\<close>\<close>

definition ServiceProxyClass_initial :: ServiceProxyClass where
  "ServiceProxyClass_initial = \<lparr> timeout = 3 * 60 * 1000 \<rparr>"

text \<open>\<^verbatim>\<open>a || b\<close> on an optional number of milliseconds: \<open>0\<close> and an absent number are not truthy.\<close>

fun or_else :: "nat option \<Rightarrow> nat \<Rightarrow> nat" where
  "or_else None b = b"
| "or_else (Some a) b = (if a = 0 then b else a)"

text \<open>\<open>kill\<close> calls \<^verbatim>\<open>worker.terminate()\<close>.\<close>

definition kill :: "ServiceProxy \<Rightarrow> ServiceProxy" where
  "kill sp = sp \<lparr> terminated := True \<rparr>"

text \<open>
  The message that \<open>call\<close> posts: the specification with the identifier merged in. A
  property is present when the specification sets it.
\<close>

definition uuid_value :: "nat \<Rightarrow> jsval" where
  "uuid_value uuid = VNum (Finite (of_nat uuid))"

definition property :: "string \<Rightarrow> jsval \<Rightarrow> (string \<times> jsval) list" where
  "property k v = (if v = VUndefined then [] else [(k, v)])"

definition message :: "MethodCall \<Rightarrow> nat \<Rightarrow> jsval" where
  "message spec uuid =
     literal (property ''target'' (call_target spec) @ property ''method'' (call_method spec) @
              property ''args'' (call_args spec) @
              (case call_timeout spec of None \<Rightarrow> []
               | Some t \<Rightarrow> [(''timeout'', VNum (Finite (of_nat t)))]) @
              [(''uuid'', uuid_value uuid)])"

text \<open>The record \<^verbatim>\<open>{ resolve: resolve, reject: reject }\<close> of the promise \<open>p\<close>.\<close>

definition resolver :: "nat \<Rightarrow> jsval" where
  "resolver p = literal [(''resolve'', VFun (Resolve p)), (''reject'', VFun (Reject p))]"

text \<open>
  \<open>call cls now sp spec\<close>, at the time \<open>now\<close>: the new promise, which is the next of
  \<open>promises\<close>, and the instance after the call. The record pushed holds the two functions
  that settle the promise; the promise fails with a \<^verbatim>\<open>TimeoutError\<close> when it is still
  pending at the time \<open>expires\<close> (see \<open>elapse\<close>).
\<close>

definition call :: "ServiceProxyClass \<Rightarrow> nat \<Rightarrow> ServiceProxy \<Rightarrow> MethodCall \<Rightarrow> nat \<times> ServiceProxy" where
  "call cls now sp spec =
     (let p = length (promises sp);
          (uuid, calls') = push (calls sp) (resolver p)
      in (p, sp \<lparr> calls := calls',
                  posted := posted sp @ [message spec uuid],
                  promises := promises sp @
                    [\<lparr> call_uuid = uuid,
                       expires = now + or_else (call_timeout spec) (timeout cls),
                       continuation = Call_only,
                       state = Pending \<rparr>] \<rparr>))"

text \<open>\<^verbatim>\<open>promise.then(k)\<close>, for the two continuations of this program.\<close>

definition and_then :: "ServiceProxy \<Rightarrow> nat \<Rightarrow> continuation \<Rightarrow> ServiceProxy" where
  "and_then sp p k =
     (if p < length (promises sp)
      then sp \<lparr> promises := (promises sp) [p := (promises sp ! p) \<lparr> continuation := k \<rparr>] \<rparr>
      else sp)"

definition terminate :: "ServiceProxyClass \<Rightarrow> nat \<Rightarrow> ServiceProxy \<Rightarrow> nat \<times> ServiceProxy" where
  "terminate cls now sp =
     (let (p, sp') = call cls now sp
            \<lparr> call_target = VUndefined, call_method = VStr ''onterminate'',
              call_args = VUndefined, call_timeout = None \<rparr>
      in (p, and_then sp' p Then_kill))"

text \<open>The constructor: the promise \<open>0\<close> of a new instance is the call of \<^verbatim>\<open>getServiceMethods\<close>.\<close>

definition new_ServiceProxyClass :: "ServiceProxyClass \<Rightarrow> nat \<Rightarrow> string \<Rightarrow> ServiceProxy" where
  "new_ServiceProxyClass cls now worker_path =
     (let (p, sp) = call cls now
            \<lparr> path = worker_path, calls = newIndexedQueue, posted = [], terminated = False,
              promises = [] \<rparr>
            \<lparr> call_target = VUndefined, call_method = VStr ''getServiceMethods'',
              call_args = VUndefined, call_timeout = None \<rparr>
      in and_then sp p Then_proxy)"

definition newInstance ::
  "ServiceProxyClass \<Rightarrow> nat \<Rightarrow> string \<Rightarrow> ServiceProxyOpts option \<Rightarrow> ServiceProxyClass \<times> ServiceProxy" where
  "newInstance cls now worker_path opts =
     (let cls' = cls \<lparr> timeout :=
            or_else (case opts of None \<Rightarrow> None | Some options \<Rightarrow> opts_timeout options) (timeout cls) \<rparr>
      in (cls', new_ServiceProxyClass cls' now worker_path))"

text \<open>
  A promise settles once. When the promise of \<open>terminate\<close> is fulfilled, its continuation
  kills the worker.
\<close>

definition settle :: "ServiceProxy \<Rightarrow> nat \<Rightarrow> jsval settled \<Rightarrow> ServiceProxy" where
  "settle sp p result =
     (if p < length (promises sp) \<and> state (promises sp ! p) = Pending
      then
        (let sp' = sp \<lparr> promises := (promises sp) [p := (promises sp ! p) \<lparr> state := result \<rparr>] \<rparr>
         in case result of
              Fulfilled v \<Rightarrow> if continuation (promises sp ! p) = Then_kill then kill sp' else sp'
            | _ \<Rightarrow> sp')
      else sp)"

text \<open>The first of the arguments that \<^verbatim>\<open>apply\<close> passes on.\<close>

definition first_argument :: "jsval \<Rightarrow> jsval" where
  "first_argument args = (case argumentsList args of [] \<Rightarrow> VUndefined | v # vs \<Rightarrow> v)"

text \<open>
  \<open>onmessage\<close> of the caller endpoint. Reading \<^verbatim>\<open>event.data.uuid\<close> throws when the data is
  \<^verbatim>\<open>undefined\<close> or \<^verbatim>\<open>null\<close>. The member \<^verbatim>\<open>call[event.data.method]\<close> of the record popped is one of
  its two functions, or a member of the root, or \<^verbatim>\<open>undefined\<close>; a function of the root that
  is applied to \<^verbatim>\<open>undefined\<close> returns or throws and settles nothing.
\<close>

definition proxy_onmessage :: "ServiceProxy \<Rightarrow> jsval \<Rightarrow> ServiceProxy" where
  "proxy_onmessage sp data =
     (if nullish data then sp
      else if \<not> has (calls sp) (getProp data ''uuid'') then sp
      else
        (case pop (calls sp) (getProp data ''uuid'') of
           (None, calls') \<Rightarrow> sp \<lparr> calls := calls' \<rparr>
         | (Some entry, calls') \<Rightarrow>
             (let sp' = sp \<lparr> calls := calls' \<rparr>;
                  method = getAt entry (getProp data ''method'');
                  args = (if isArrayLike (getProp data ''args'') then getProp data ''args''
                          else VArr [])
              in if \<not> isFunction method then sp'
                 else case method of
                        VFun (Resolve p) \<Rightarrow> settle sp' p (Fulfilled (first_argument args))
                      | VFun (Reject p) \<Rightarrow> settle sp' p (Failed (first_argument args))
                      | _ \<Rightarrow> sp')))"

text \<open>
  Time passes to \<open>t\<close>: every promise that is still pending at its expiry fails with a
  \<^verbatim>\<open>TimeoutError\<close>, and the handler that \<open>call\<close> attached pops its record.
\<close>

definition timeout_error :: jsval where
  "timeout_error = new_error ''TimeoutError'' ''operation timed out''"

definition expire :: "nat \<Rightarrow> ServiceProxy \<Rightarrow> nat \<Rightarrow> ServiceProxy" where
  "expire t sp p =
     (if state (promises sp ! p) = Pending \<and> expires (promises sp ! p) \<le> t
      then (settle sp p (Failed timeout_error))
             \<lparr> calls := snd (pop (calls sp) (uuid_value (call_uuid (promises sp ! p)))) \<rparr>
      else sp)"

definition elapse :: "nat \<Rightarrow> ServiceProxy \<Rightarrow> ServiceProxy" where
  "elapse t sp = foldl (expire t) sp [0..<length (promises sp)]"


text \<open>The member \<open>k\<close> of the stand-in object, called with the arguments \<open>arguments\<close>.\<close>

definition forward ::
  "ServiceProxyClass \<Rightarrow> nat \<Rightarrow> ServiceProxy \<Rightarrow> jsval \<Rightarrow> jsval list \<Rightarrow> nat \<times> ServiceProxy" where
  "forward cls now sp method arguments =
     call cls now sp
       \<lparr> call_target = VStr ''service'', call_method = method, call_args = VArr arguments,
         call_timeout = None \<rparr>"


definition terminate_promise :: "ServiceProxy \<Rightarrow> nat \<Rightarrow> jsval settled" where
  "terminate_promise sp p =
     (case state (promises sp ! p) of
        Pending \<Rightarrow> Pending
      | Failed err \<Rightarrow> Failed err
      | Fulfilled v \<Rightarrow> Fulfilled VUndefined)"

section \<open>The properties in the words of the specification\<close>





text \<open>
  The invariant of the caller endpoint: the allocator has handed out every key that it
  stores and every identifier of a call, and it stores the records that \<open>call\<close> pushes.
\<close>

definition queue_inv :: "'a IndexedQueue \<Rightarrow> bool" where
  "queue_inv q = list_all (\<lambda>e. fst e < next_index q) (entries q)"

definition is_resolver :: "jsval \<Rightarrow> bool" where
  "is_resolver entry =
     (case getProp entry ''resolve'' of VFun (Resolve p) \<Rightarrow> entry = resolver p | _ \<Rightarrow> False)"

definition proxy_inv :: "ServiceProxy \<Rightarrow> bool" where
  "proxy_inv sp =
     (queue_inv (calls sp) \<and> list_all (\<lambda>e. is_resolver (snd e)) (entries (calls sp)) \<and>
      list_all (\<lambda>q. call_uuid q < next_index (calls sp)) (promises sp))"

text \<open>The instance without the record stored under the key \<open>u\<close>.\<close>

definition forget :: "ServiceProxy \<Rightarrow> nat \<Rightarrow> ServiceProxy" where
  "forget sp u =
     sp \<lparr> calls := (calls sp) \<lparr> entries := filter (\<lambda>e. fst e \<noteq> u) (entries (calls sp)) \<rparr> \<rparr>"

text \<open>
  The instances that a program can come to hold: a new one, and one after a call (the
  members of the stand-in object and \<open>terminate\<close> call), after \<open>kill\<close>, after a message of
  the worker and after time has passed.
\<close>

inductive reachable :: "ServiceProxy \<Rightarrow> bool" where
  constructed: "reachable (new_ServiceProxyClass cls now worker_path)"
| called: "reachable sp \<Longrightarrow> reachable (snd (call cls now sp spec))"
| terminating: "reachable sp \<Longrightarrow> reachable (snd (terminate cls now sp))"
| killed: "reachable sp \<Longrightarrow> reachable (kill sp)"
| received: "reachable sp \<Longrightarrow> reachable (proxy_onmessage sp data)"
| elapsed: "reachable sp \<Longrightarrow> reachable (elapse t sp)"

section \<open>The setup of the test suite\<close>

text \<open>
  The service, the worker and the requests of \<^verbatim>\<open>spec/worker/index.spec.ts\<close>: a service
  whose three methods are on its prototype, where \<^verbatim>\<open>syncwork\<close> returns \<^verbatim>\<open>'foo'\<close> and
  \<^verbatim>\<open>asyncwork\<close> resolves to it; a worker with \<^verbatim>\<open>postMessage\<close>.
\<close>

definition example_service :: jsval where
  "example_service = VObj (Inherit []
     (Inherit [(''asyncwork'', VFun (Host ''asyncwork'')),
               (''syncwork'', VFun (Host ''syncwork'')),
               (''stop'', VFun (Host ''stop''))] object_prototype))"



definition example_env :: env where
  "example_env n this arguments =
     (if n = ''syncwork'' then Returned (VStr ''foo'')
      else if n = ''asyncwork'' then Resolved (VStr ''foo'')
      else Thrown (new_error ''Error'' ''boom''))"

definition example_callee :: callee where
  "example_callee =
     \<lparr> worker = literal [(''postMessage'', VFun (Host ''postMessage'')),
                          (''onmessage'', VFun (Own ''onmessage''))],
       service = example_service,
       onterminate = VFun (Host ''stop''),
       methods = [''asyncwork'', ''syncwork'', ''stop''] \<rparr>"

definition example_request :: "jsval \<Rightarrow> jsval \<Rightarrow> jsval \<Rightarrow> jsval" where
  "example_request uuid target_name method_name =
     literal [(''uuid'', uuid), (''target'', target_name), (''method'', method_name),
              (''args'', VArr [VStr ''foo'', VStr ''bar''])]"

text \<open>A caller endpoint, new at the time \<open>0\<close>: its call of \<^verbatim>\<open>getServiceMethods\<close> is pending.\<close>

definition example_proxy :: ServiceProxy where
  "example_proxy = snd (newInstance ServiceProxyClass_initial 0 ''worker.js'' None)"

definition example_response :: "nat \<Rightarrow> jsval \<Rightarrow> jsval \<Rightarrow> jsval" where
  "example_response uuid method_name res =
     literal [(''uuid'', uuid_value uuid), (''method'', method_name), (''args'', VArr [res])]"

section \<open>Auxiliary facts\<close>

lemma this_unknown: "getProp (this_object c) ''unknown'' = VFun (Own ''unknown'')"
  by (simp add: this_object_def class_prototype_def getMember_def)

lemma this_not_service: "this_object c \<noteq> service c"
proof
  assume "this_object c = service c"
  then have "size (this_object c) = size (service c)" by simp
  then show False by (simp add: this_object_def)
qed

lemma reject_new_error:
  "reject c uuid (new_error n m) = [literal [(''uuid'', uuid), (''method'', VStr ''reject''),
              (''args'', VArr [literal [(''name'', VStr n),
                                        (''message'', VStr m),
                                        (''stack'', VStr (n @ '': '' @ m))]])]]"
  by (simp add: reject_def new_error_def nullish_def literal_def getMember_def)

lemma indexOf_nonneg: "(indexOf xs v \<ge> 0) = (v \<in> set xs)"
  by (induction xs) (auto simp: Let_def)






lemma valid_call_not_nullish: "isValidWorkerServiceMethodCall data \<Longrightarrow> \<not> nullish data"
  by (auto simp: isValidWorkerServiceMethodCall_def isObject_def nullish_def)

lemma callTargetMethod_unknown:
  assumes "isSafeInteger (getProp data ''uuid'')" and "isValidWorkerServiceMethodCall data"
    and "getProp data ''target'' = VStr ''service'' \<and> isObject (service c) \<and>
           getProp data ''method'' \<notin> set (map VStr (methods c))
         \<or> \<not> isObject (getAt (this_object c) (getProp data ''target'')) \<and>
           \<not> isFunction (getAt (this_object c) (getProp data ''method''))"
  shows "\<exists>target args. callTargetMethod c data = Inr (VFun (Own ''unknown''), target, args)"
proof -
  have nn: "\<not> nullish data" using assms(2) by (rule valid_call_not_nullish)
  have svc: "getAt (this_object c) (VStr ''service'') = service c"
    by (simp add: getAt_def this_object_def getMember_def)
  from assms(3) show ?thesis
  proof
    assume a: "getProp data ''target'' = VStr ''service'' \<and> isObject (service c) \<and>
           getProp data ''method'' \<notin> set (map VStr (methods c))"
    then have "\<not> (0 \<le> indexOf (map VStr (methods c)) (getProp data ''method''))"
      by (simp only: indexOf_nonneg) simp
    then show ?thesis using a assms(1,2) nn svc
      by (simp add: callTargetMethod_def assert_def Let_def this_unknown)
  next
    assume b: "\<not> isObject (getAt (this_object c) (getProp data ''target'')) \<and>
           \<not> isFunction (getAt (this_object c) (getProp data ''method''))"
    then show ?thesis using assms(1,2) nn this_not_service [of c]
      by (simp add: callTargetMethod_def assert_def Let_def this_unknown)
  qed
qed



lemma last_string_of_nat: "last (string_of_nat n) = digit (n mod 10)"
  by (subst string_of_nat.simps) simp

lemma string_of_nat_neq:
  assumes "(58::nat) \<le> of_char (last s)"
  shows "string_of_nat n \<noteq> s"
proof
  assume "string_of_nat n = s"
  then have "last s = digit (n mod 10)" using last_string_of_nat [of n] by simp
  then have "(of_char (last s) :: nat) = 48 + n mod 10" by simp
  then show False using assms by simp
qed

lemma array_index_lookup:
  assumes "(58::nat) \<le> of_char (last k)"
  shows "map_of (zip (map string_of_nat [0..<length xs]) xs) k = None"
proof (cases "map_of (zip (map string_of_nat [0..<length xs]) xs) k")
  case (Some v)
  then have "(k, v) \<in> set (zip (map string_of_nat [0..<length xs]) xs)"
    by (rule map_of_SomeD)
  then have "k \<in> set (map string_of_nat [0..<length xs])"
    by (rule set_zip_leftD)
  then show ?thesis using string_of_nat_neq [OF assms] by (metis (no_types) imageE set_map)
qed simp


lemma array_length: "getProp (VArr xs) ''length'' = VNum (Finite (of_nat (length xs)))"
proof -
  have m: "map_of (zip (map string_of_nat [0..<length xs]) xs) ''length'' = None"
    by (rule array_index_lookup) simp
  have "lookup (array_object xs) ''length'' = Some (VNum (Finite (of_nat (length xs))))"
    unfolding array_object_def by (simp add: map_add_def m)
  then show ?thesis by (simp add: getMember_def)
qed

lemma isArrayLike_VArr: "isArrayLike (VArr xs)"
  using array_length [of xs] by (simp add: isArrayLike_def isObject_def isNumber_def)

lemma first_argument_VArr: "first_argument (VArr (v # vs)) = v"
  by (simp add: first_argument_def)







lemma index_of_uuid_value [simp]: "index_of (uuid_value u) = Some u"
  by (simp add: uuid_value_def)

lemma is_resolver_resolver [simp]: "is_resolver (resolver p)"
  by (simp add: is_resolver_def resolver_def literal_def getMember_def)

lemma is_resolverD: "is_resolver entry \<Longrightarrow> \<exists>p. entry = resolver p"
  by (auto simp: is_resolver_def split: jsval.splits fid.splits)

lemma map_of_fresh: "list_all (\<lambda>e. fst e < (n::nat)) es \<Longrightarrow> map_of es n = None"
  by (induction es) auto

lemma map_of_filter_key:
  "map_of (filter (\<lambda>e. fst e \<noteq> i) es) k = (if k = i then None else map_of es k)"
  by (induction es) auto

lemma has_iff: "has q (uuid_value u) = (map_of (entries q) u \<noteq> None)"
  by (simp add: has_def)

lemma push_props:
  assumes "queue_inv q" and "push q v = (u, q')"
  shows "u = next_index q" and "map_of (entries q') u = Some v"
    and "k \<noteq> u \<Longrightarrow> map_of (entries q') k = map_of (entries q) k"
  using assms
  by (auto simp: push_def queue_inv_def map_add_def map_of_fresh split: option.splits)

lemma push_inv:
  assumes "queue_inv q" and "push q v = (u, q')"
  shows "queue_inv q'"
proof -
  have "\<forall>e \<in> set (entries q). fst e < Suc (next_index q)"
    using assms(1) by (fastforce simp: queue_inv_def list_all_iff)
  then show ?thesis using assms(2) by (fastforce simp: push_def queue_inv_def list_all_iff)
qed

lemma pop_props:
  "pop q (uuid_value u) = (map_of (entries q) u, q \<lparr> entries := filter (\<lambda>e. fst e \<noteq> u) (entries q) \<rparr>)"
  by (simp add: pop_def)


lemma resolver_resolve: "getAt (resolver p) (VStr ''resolve'') = VFun (Resolve p)"
  by (simp add: getAt_def resolver_def literal_def getMember_def)

lemma resolver_reject: "getAt (resolver p) (VStr ''reject'') = VFun (Reject p)"
  by (simp add: getAt_def resolver_def literal_def getMember_def)


lemma onmessage_unmatched:
  "\<not> has (calls sp) (getProp data ''uuid'') \<Longrightarrow> proxy_onmessage sp data = sp"
  by (simp add: proxy_onmessage_def)

lemma uuid_not_nullish: "getProp data ''uuid'' = uuid_value u \<Longrightarrow> \<not> nullish data"
  by (auto simp: nullish_def uuid_value_def)

lemma onmessage_matched:
  assumes "map_of (entries (calls sp)) u = Some (resolver p)"
    and "getProp data ''uuid'' = uuid_value u"
  shows "proxy_onmessage sp data =
     (let args = (if isArrayLike (getProp data ''args'') then getProp data ''args'' else VArr [])
      in case getAt (resolver p) (getProp data ''method'') of
           VFun (Resolve q) \<Rightarrow> settle (forget sp u) q (Fulfilled (first_argument args))
         | VFun (Reject q) \<Rightarrow> settle (forget sp u) q (Failed (first_argument args))
         | _ \<Rightarrow> forget sp u)"
  using assms uuid_not_nullish [OF assms(2)]
  by (auto simp: proxy_onmessage_def has_iff pop_props forget_def Let_def isFunction_def
      split: jsval.splits fid.splits)

lemma onmessage_resolve:
  assumes "map_of (entries (calls sp)) u = Some (resolver p)"
    and "getProp data ''uuid'' = uuid_value u"
    and "getProp data ''method'' = VStr ''resolve''"
  shows "proxy_onmessage sp data = settle (forget sp u) p
     (Fulfilled (first_argument (if isArrayLike (getProp data ''args'') then getProp data ''args'' else VArr [])))"
  using onmessage_matched [OF assms(1,2)] assms(3) by (simp add: resolver_resolve)

lemma onmessage_reject:
  assumes "map_of (entries (calls sp)) u = Some (resolver p)"
    and "getProp data ''uuid'' = uuid_value u"
    and "getProp data ''method'' = VStr ''reject''"
  shows "proxy_onmessage sp data = settle (forget sp u) p
     (Failed (first_argument (if isArrayLike (getProp data ''args'') then getProp data ''args'' else VArr [])))"
  using onmessage_matched [OF assms(1,2)] assms(3) by (simp add: resolver_reject)


lemma forget_simps [simp]:
  "promises (forget sp u) = promises sp" "posted (forget sp u) = posted sp"
  "terminated (forget sp u) = terminated sp"
  "map_of (entries (calls (forget sp u))) k = (if k = u then None else map_of (entries (calls sp)) k)"
  "next_index (calls (forget sp u)) = next_index (calls sp)"
  by (simp_all add: forget_def map_of_filter_key)

lemma forget_pop: "forget sp u = sp \<lparr> calls := snd (pop (calls sp) (uuid_value u)) \<rparr>"
  by (simp add: forget_def pop_props)

lemma settle_simps [simp]:
  "calls (settle sp p r) = calls sp" "posted (settle sp p r) = posted sp"
  "length (promises (settle sp p r)) = length (promises sp)"
  by (simp_all add: settle_def kill_def Let_def split: settled.splits)

lemma settle_other [simp]: "q \<noteq> p \<Longrightarrow> promises (settle sp p r) ! q = promises sp ! q"
  by (simp add: settle_def kill_def Let_def split: settled.splits)

lemma settle_pending:
  assumes "p < length (promises sp)" and "state (promises sp ! p) = Pending"
  shows "state (promises (settle sp p r) ! p) = r"
    and "call_uuid (promises (settle sp p r) ! p) = call_uuid (promises sp ! p)"
    and "continuation (promises (settle sp p r) ! p) = continuation (promises sp ! p)"
    and "expires (promises (settle sp p r) ! p) = expires (promises sp ! p)"
  using assms by (simp_all add: settle_def kill_def Let_def split: settled.splits)

lemma settle_terminated:
  "terminated (settle sp p r) =
     (terminated sp \<or> (p < length (promises sp) \<and> state (promises sp ! p) = Pending \<and>
        (\<exists>v. r = Fulfilled v) \<and> continuation (promises sp ! p) = Then_kill))"
  by (auto simp: settle_def kill_def Let_def split: settled.splits)

lemma call_props:
  assumes "proxy_inv sp" and "call cls now sp spec = (p, sp1)"
  shows "p = length (promises sp)"
    and "promises sp1 = promises sp @
           [\<lparr> call_uuid = next_index (calls sp),
              expires = now + or_else (call_timeout spec) (timeout cls),
              continuation = Call_only, state = Pending \<rparr>]"
    and "map_of (entries (calls sp1)) (next_index (calls sp)) = Some (resolver p)"
    and "k \<noteq> next_index (calls sp) \<Longrightarrow> map_of (entries (calls sp1)) k = map_of (entries (calls sp)) k"
    and "posted sp1 = posted sp @ [message spec (next_index (calls sp))]"
    and "terminated sp1 = terminated sp"
    and "next_index (calls sp1) = Suc (next_index (calls sp))"
  using assms
  by (auto simp: call_def push_def Let_def proxy_inv_def queue_inv_def map_add_def map_of_fresh
      split: option.splits)

lemma call_inv:
  assumes "proxy_inv sp" and "call cls now sp spec = (p, sp1)"
  shows "proxy_inv sp1"
proof -
  obtain u q' where pu: "push (calls sp) (resolver (length (promises sp))) = (u, q')"
    by (cases "push (calls sp) (resolver (length (promises sp)))")
  then have "queue_inv q'" using assms(1) push_inv by (auto simp: proxy_inv_def)
  moreover have e: "entries q' = entries (calls sp) @ [(u, resolver (length (promises sp)))]"
    and n: "next_index q' = Suc (next_index (calls sp))" and u: "u = next_index (calls sp)"
    using pu by (auto simp: push_def)
  moreover have c: "calls sp1 = q'"
    and "promises sp1 = promises sp @
           [\<lparr> call_uuid = u, expires = now + or_else (call_timeout spec) (timeout cls),
              continuation = Call_only, state = Pending \<rparr>]"
    using assms(2) pu by (auto simp: call_def Let_def)
  moreover have "\<forall>q \<in> set (promises sp). call_uuid q < Suc (next_index (calls sp))"
    using assms(1) by (fastforce simp: proxy_inv_def list_all_iff)
  ultimately show ?thesis using assms(1) by (simp add: proxy_inv_def list_all_iff)
qed

lemma has_uuid:
  assumes "has q v"
  shows "\<exists>u entry. v = uuid_value u \<and> map_of (entries q) u = Some entry"
proof -
  from assms obtain u where u: "index_of v = Some u" and m: "map_of (entries q) u \<noteq> None"
    by (auto simp: has_def split: option.splits)
  from u obtain x where v: "v = VNum (Finite x)" and x: "of_int \<lfloor>x\<rfloor> = x" "0 \<le> x" "u = nat \<lfloor>x\<rfloor>"
    by (cases v rule: index_of.cases) (auto split: if_splits)
  have "x = of_nat u"
    using x by (metis of_int_of_nat_eq of_nat_nat zero_le_floor)
  then show ?thesis using v m by (auto simp: uuid_value_def)
qed

lemma inv_entry:
  "proxy_inv sp \<Longrightarrow> map_of (entries (calls sp)) u = Some entry \<Longrightarrow> \<exists>p. entry = resolver p"
proof -
  assume i: "proxy_inv sp" and m: "map_of (entries (calls sp)) u = Some entry"
  from m have "(u, entry) \<in> set (entries (calls sp))" by (rule map_of_SomeD)
  then have "is_resolver (snd (u, entry))" using i unfolding proxy_inv_def list_all_iff by blast
  then show ?thesis by (simp add: is_resolverD)
qed

lemma expire_simps [simp]:
  "length (promises (expire t sp q)) = length (promises sp)"
  "posted (expire t sp q) = posted sp"
  "terminated (expire t sp q) = terminated sp"
  "next_index (calls (expire t sp q)) = next_index (calls sp)"
  by (simp_all add: expire_def settle_terminated pop_props)

lemma expire_other [simp]: "p \<noteq> q \<Longrightarrow> promises (expire t sp q) ! p = promises sp ! p"
  by (simp add: expire_def)

lemma expire_fields [simp]:
  "q < length (promises sp) \<Longrightarrow> call_uuid (promises (expire t sp q) ! q) = call_uuid (promises sp ! q)"
  "q < length (promises sp) \<Longrightarrow> expires (promises (expire t sp q) ! q) = expires (promises sp ! q)"
  "q < length (promises sp) \<Longrightarrow> continuation (promises (expire t sp q) ! q) = continuation (promises sp ! q)"
  by (simp_all add: expire_def settle_pending)

lemma expire_state:
  "q < length (promises sp) \<Longrightarrow>
     state (promises (expire t sp q) ! q) =
       (if state (promises sp ! q) = Pending \<and> expires (promises sp ! q) \<le> t
        then Failed timeout_error else state (promises sp ! q))"
  by (simp add: expire_def settle_pending)


lemma foldl_expire_simps [simp]:
  "length (promises (foldl (expire t) sp qs)) = length (promises sp)"
  "posted (foldl (expire t) sp qs) = posted sp"
  "terminated (foldl (expire t) sp qs) = terminated sp"
  "next_index (calls (foldl (expire t) sp qs)) = next_index (calls sp)"
  by (induction qs arbitrary: sp) simp_all

lemma foldl_expire_other:
  "p \<notin> set qs \<Longrightarrow> promises (foldl (expire t) sp qs) ! p = promises sp ! p"
  by (induction qs arbitrary: sp) auto

lemma foldl_expire_fields:
  "p < length (promises sp) \<Longrightarrow>
     call_uuid (promises (foldl (expire t) sp qs) ! p) = call_uuid (promises sp ! p) \<and>
     expires (promises (foldl (expire t) sp qs) ! p) = expires (promises sp ! p) \<and>
     continuation (promises (foldl (expire t) sp qs) ! p) = continuation (promises sp ! p)"
proof (induction qs arbitrary: sp)
  case (Cons q qs)
  then show ?case by (cases "p = q") simp_all
qed simp

lemma foldl_expire_state:
  assumes "p < length (promises sp)" and "p \<in> set qs"
  shows "state (promises (foldl (expire t) sp qs) ! p) =
       (if state (promises sp ! p) = Pending \<and> expires (promises sp ! p) \<le> t
        then Failed timeout_error else state (promises sp ! p))"
  using assms
proof (induction qs arbitrary: sp)
  case (Cons q qs)
  show ?case
  proof (cases "p = q")
    case True
    have a: "state (promises (expire t sp q) ! q) =
       (if state (promises sp ! q) = Pending \<and> expires (promises sp ! q) \<le> t
        then Failed timeout_error else state (promises sp ! q))"
      using Cons.prems True by (simp add: expire_state)
    show ?thesis
    proof (cases "p \<in> set qs")
      case False
      then show ?thesis using a True by (simp add: foldl_expire_other)
    next
      case p: True
      have "state (promises (foldl (expire t) (expire t sp q) qs) ! p) =
        (if state (promises (expire t sp q) ! p) = Pending \<and> expires (promises (expire t sp q) ! p) \<le> t
         then Failed timeout_error else state (promises (expire t sp q) ! p))"
        using Cons.IH [of "expire t sp q"] Cons.prems p by simp
      then show ?thesis using a True Cons.prems by auto
    qed
  next
    case False
    then have "p \<in> set qs" using Cons.prems by simp
    then show ?thesis using Cons.IH [of "expire t sp q"] Cons.prems False by simp
  qed
qed simp




lemma call_promise:
  assumes "proxy_inv sp" and "call cls now sp spec = (p, sp1)"
  shows "p < length (promises sp1)"
    and "promises sp1 ! p = \<lparr> call_uuid = next_index (calls sp),
              expires = now + or_else (call_timeout spec) (timeout cls),
              continuation = Call_only, state = Pending \<rparr>"
    and "q < p \<Longrightarrow> promises sp1 ! q = promises sp ! q"
    and "q < p \<Longrightarrow> call_uuid (promises sp1 ! q) < next_index (calls sp)"
    and "length (promises sp1) = Suc p"
proof -
  note c = call_props [OF assms]
  show "p < length (promises sp1)" "length (promises sp1) = Suc p" using c(1,2) by simp_all
  show "promises sp1 ! p = \<lparr> call_uuid = next_index (calls sp),
              expires = now + or_else (call_timeout spec) (timeout cls),
              continuation = Call_only, state = Pending \<rparr>"
    using c(1,2) by simp
  show q: "q < p \<Longrightarrow> promises sp1 ! q = promises sp ! q" using c(1,2) by (simp add: nth_append)
  show "q < p \<Longrightarrow> call_uuid (promises sp1 ! q) < next_index (calls sp)"
  proof -
    assume a: "q < p"
    then have "promises sp ! q \<in> set (promises sp)" using c(1) by simp
    then have "call_uuid (promises sp ! q) < next_index (calls sp)"
      using assms(1) unfolding proxy_inv_def list_all_iff by blast
    then show ?thesis using q [OF a] by simp
  qed
qed

lemma elapse_simps [simp]:
  "length (promises (elapse t sp)) = length (promises sp)"
  "posted (elapse t sp) = posted sp"
  "terminated (elapse t sp) = terminated sp"
  by (simp_all add: elapse_def)

lemma elapse_state:
  "p < length (promises sp) \<Longrightarrow>
     state (promises (elapse t sp) ! p) =
       (if state (promises sp ! p) = Pending \<and> expires (promises sp ! p) \<le> t
        then Failed timeout_error else state (promises sp ! p))"
  by (simp add: elapse_def foldl_expire_state)




lemma and_then_simps [simp]:
  "calls (and_then sp p k) = calls sp" "posted (and_then sp p k) = posted sp"
  "terminated (and_then sp p k) = terminated sp"
  "length (promises (and_then sp p k)) = length (promises sp)"
  by (simp_all add: and_then_def)

lemma and_then_promise:
  "p < length (promises sp) \<Longrightarrow>
     promises (and_then sp p k) ! p = (promises sp ! p) \<lparr> continuation := k \<rparr>"
  "q \<noteq> p \<Longrightarrow> promises (and_then sp p k) ! q = promises sp ! q"
  by (simp_all add: and_then_def)

lemma and_then_inv: "proxy_inv sp \<Longrightarrow> proxy_inv (and_then sp p k)"
proof -
  assume i: "proxy_inv sp"
  have "\<forall>q \<in> set (promises (and_then sp p k)). call_uuid q < next_index (calls sp)"
  proof
    fix q assume "q \<in> set (promises (and_then sp p k))"
    then obtain n where n: "n < length (promises sp)" "q = promises (and_then sp p k) ! n"
      by (metis and_then_simps(4) in_set_conv_nth)
    have "promises sp ! n \<in> set (promises sp)" using n(1) by simp
    then have "call_uuid (promises sp ! n) < next_index (calls sp)"
      using i unfolding proxy_inv_def list_all_iff by blast
    then show "call_uuid q < next_index (calls sp)"
      using n by (cases "n = p") (simp_all add: and_then_promise)
  qed
  then show ?thesis using i by (simp add: proxy_inv_def list_all_iff)
qed

lemma terminate_props:
  assumes "proxy_inv sp" and "terminate cls now sp = (p, sp1)"
  shows "p < length (promises sp1)"
    and "promises sp1 ! p = \<lparr> call_uuid = next_index (calls sp),
              expires = now + timeout cls, continuation = Then_kill, state = Pending \<rparr>"
    and "map_of (entries (calls sp1)) (next_index (calls sp)) = Some (resolver p)"
    and "posted sp1 = posted sp @
           [literal [(''method'', VStr ''onterminate''), (''uuid'', uuid_value (next_index (calls sp)))]]"
    and "terminated sp1 = terminated sp"
proof -
  let ?spec = "\<lparr> call_target = VUndefined, call_method = VStr ''onterminate'',
              call_args = VUndefined, call_timeout = None \<rparr>"
  obtain sp0 where c: "call cls now sp ?spec = (p, sp0)" and s: "sp1 = and_then sp0 p Then_kill"
    using assms(2) by (auto simp: terminate_def split: prod.splits)
  note cp = call_promise [OF assms(1) c] and cq = call_props [OF assms(1) c]
  show "p < length (promises sp1)" using cp(1) s by simp
  show "promises sp1 ! p = \<lparr> call_uuid = next_index (calls sp),
              expires = now + timeout cls, continuation = Then_kill, state = Pending \<rparr>"
    using cp(1,2) s by (simp add: and_then_promise)
  show "map_of (entries (calls sp1)) (next_index (calls sp)) = Some (resolver p)"
    using cq(3) s by simp
  show "posted sp1 = posted sp @
           [literal [(''method'', VStr ''onterminate''), (''uuid'', uuid_value (next_index (calls sp)))]]"
    using cq(5) s by (simp add: message_def property_def)
  show "terminated sp1 = terminated sp" using cq(6) s by simp
qed









lemma example_proxy_state: "example_proxy =
   \<lparr> path = ''worker.js'',
     calls = \<lparr> next_index = 1, entries = [(0, resolver 0)] \<rparr>,
     posted = [literal [(''method'', VStr ''getServiceMethods''), (''uuid'', uuid_value 0)]],
     terminated = False,
     promises = [\<lparr> call_uuid = 0, expires = 180000, continuation = Then_proxy,
                  state = Pending \<rparr>] \<rparr>"
  by (simp add: example_proxy_def newInstance_def new_ServiceProxyClass_def call_def push_def
      newIndexedQueue_def and_then_def ServiceProxyClass_initial_def message_def property_def
      Let_def)

lemma example_proxy_inv: "proxy_inv example_proxy"
  by (simp add: example_proxy_state proxy_inv_def queue_inv_def)

lemma example_response_fields:
  "getProp (example_response u m v) ''uuid'' = uuid_value u"
  "getProp (example_response u m v) ''method'' = m"
  "getProp (example_response u m v) ''args'' = VArr [v]"
  by (simp_all add: example_response_def literal_def getMember_def)

lemma new_instance_state:
  "new_ServiceProxyClass cls now worker_path =
   \<lparr> path = worker_path,
     calls = \<lparr> next_index = 1, entries = [(0, resolver 0)] \<rparr>,
     posted = [literal [(''method'', VStr ''getServiceMethods''), (''uuid'', uuid_value 0)]],
     terminated = False,
     promises = [\<lparr> call_uuid = 0, expires = now + timeout cls, continuation = Then_proxy,
                  state = Pending \<rparr>] \<rparr>"
  by (simp add: new_ServiceProxyClass_def call_def push_def newIndexedQueue_def and_then_def
      message_def property_def Let_def)






text \<open>The invariant holds of every instance that a program can come to hold.\<close>

lemma kill_inv: "proxy_inv sp \<Longrightarrow> proxy_inv (kill sp)"
  by (simp add: proxy_inv_def kill_def)

lemma forget_inv: "proxy_inv sp \<Longrightarrow> proxy_inv (forget sp u)"
  by (auto simp: proxy_inv_def queue_inv_def forget_def list_all_iff)

lemma settle_inv:
  assumes "proxy_inv sp"
  shows "proxy_inv (settle sp p r)"
proof -
  have "list_all (\<lambda>q. call_uuid q < n) ((promises sp) [p := (promises sp ! p) \<lparr> state := r \<rparr>])"
    if "list_all (\<lambda>q. call_uuid q < n) (promises sp)" and "p < length (promises sp)" for n
    using that by (auto simp: list_all_iff dest!: set_update_subset_insert [THEN subsetD])
  then show ?thesis using assms
    by (auto simp: settle_def kill_def Let_def proxy_inv_def split: settled.splits)
qed

lemma new_instance_inv: "proxy_inv (new_ServiceProxyClass cls now worker_path)"
  by (simp add: new_instance_state proxy_inv_def queue_inv_def)

lemma terminate_inv:
  assumes "proxy_inv sp"
  shows "proxy_inv (snd (terminate cls now sp))"
proof -
  obtain p sp1 where c: "call cls now sp
            \<lparr> call_target = VUndefined, call_method = VStr ''onterminate'',
              call_args = VUndefined, call_timeout = None \<rparr> = (p, sp1)"
    by (meson surj_pair)
  then have "proxy_inv sp1" using call_inv [OF assms] by blast
  then show ?thesis using c by (simp add: terminate_def and_then_inv)
qed

lemma onmessage_inv:
  assumes "proxy_inv sp"
  shows "proxy_inv (proxy_onmessage sp data)"
proof (cases "has (calls sp) (getProp data ''uuid'')")
  case False
  then show ?thesis using assms by (simp add: onmessage_unmatched)
next
  case True
  then obtain u entry where u: "getProp data ''uuid'' = uuid_value u"
    and e: "map_of (entries (calls sp)) u = Some entry" using has_uuid by blast
  then obtain p where e': "map_of (entries (calls sp)) u = Some (resolver p)"
    using inv_entry [OF assms] by blast
  show ?thesis
    unfolding onmessage_matched [OF e' u]
    using assms by (simp add: Let_def settle_inv forget_inv split: jsval.splits fid.splits)
qed

lemma expire_inv: "proxy_inv sp \<Longrightarrow> proxy_inv (expire t sp p)"
  using forget_inv [OF settle_inv, of sp p "Failed timeout_error" "call_uuid (promises sp ! p)"]
  by (simp add: expire_def forget_pop)

lemma elapse_inv: "proxy_inv sp \<Longrightarrow> proxy_inv (elapse t sp)"
proof -
  have "proxy_inv sp \<Longrightarrow> proxy_inv (foldl (expire t) sp qs)" for qs
    by (induction qs arbitrary: sp) (simp_all add: expire_inv)
  then show "proxy_inv sp \<Longrightarrow> proxy_inv (elapse t sp)" by (simp add: elapse_def)
qed

lemma reachable_inv: "reachable sp \<Longrightarrow> proxy_inv sp"
proof (induction rule: reachable.induct)
  case (called sp cls now spec)
  then show ?case using call_inv [of sp cls now spec] by (cases "call cls now sp spec") simp
qed (simp_all add: new_instance_inv terminate_inv kill_inv onmessage_inv elapse_inv)

section \<open>The claims\<close>

subsection \<open>The callee endpoint\<close>




text \<open>
  Claim C6, as amended. For every well-formed inbound request that is dispatched to the
  service and names a method outside the Exposed Method Set, or whose target names no
  object that the endpoint holds and whose method names no function of the endpoint
  itself, the callee endpoint posts exactly one response, with the method \<^verbatim>\<open>"reject"\<close>
  and an error descriptor with the name \<^verbatim>\<open>"Error"\<close> and the message
  \<^verbatim>\<open>"unknown method"\<close>.
\<close>

theorem C6_unknown_method_rejected:
  assumes "isSafeInteger (getProp data ''uuid'')" and "isValidWorkerServiceMethodCall data"
    and "getProp data ''target'' = VStr ''service'' \<and> isObject (service c) \<and>
           getProp data ''method'' \<notin> set (map VStr (methods c))
         \<or> \<not> isObject (getAt (this_object c) (getProp data ''target'')) \<and>
           \<not> isFunction (getAt (this_object c) (getProp data ''method''))"
  shows "onmessage env c data =
     Some [literal [(''uuid'', getProp data ''uuid''), (''method'', VStr ''reject''),
              (''args'', VArr [literal [(''name'', VStr ''Error''),
                                        (''message'', VStr ''unknown method''),
                                        (''stack'', VStr ''Error: unknown method'')]])]]"
proof -
  obtain target args where "callTargetMethod c data = Inr (VFun (Own ''unknown''), target, args)"
    using callTargetMethod_unknown [OF assms] by blast
  then show ?thesis using valid_call_not_nullish [OF assms(2)]
    by (simp add: onmessage_def unknown_def reject_new_error)
qed

text \<open>The two requests of the test suite: an unknown method of the service, an unknown target.\<close>

theorem C6_unknown_method_rejected_witness:
  "onmessage example_env example_callee
     (example_request (VNum (Finite 42)) (VStr ''service'') (VStr ''shazam'')) =
     Some [literal [(''uuid'', VNum (Finite 42)), (''method'', VStr ''reject''),
              (''args'', VArr [literal [(''name'', VStr ''Error''),
                                        (''message'', VStr ''unknown method''),
                                        (''stack'', VStr ''Error: unknown method'')]])]] \<and>
   onmessage example_env example_callee
     (example_request (VNum (Finite 42)) (VStr ''shazam'') (VStr ''syncwork'')) =
     Some [literal [(''uuid'', VNum (Finite 42)), (''method'', VStr ''reject''),
              (''args'', VArr [literal [(''name'', VStr ''Error''),
                                        (''message'', VStr ''unknown method''),
                                        (''stack'', VStr ''Error: unknown method'')]])]]"
proof -
  let ?a = "example_request (VNum (Finite 42)) (VStr ''service'') (VStr ''shazam'')"
  let ?b = "example_request (VNum (Finite 42)) (VStr ''shazam'') (VStr ''syncwork'')"
  have a1: "isSafeInteger (getProp ?a ''uuid'')" and b1: "isSafeInteger (getProp ?b ''uuid'')"
    by code_simp+
  have a2: "isValidWorkerServiceMethodCall ?a" and b2: "isValidWorkerServiceMethodCall ?b"
    by code_simp+
  have a3: "getProp ?a ''target'' = VStr ''service'' \<and> isObject (service example_callee) \<and>
           getProp ?a ''method'' \<notin> set (map VStr (methods example_callee))"
    by code_simp
  have b3: "\<not> isObject (getAt (this_object example_callee) (getProp ?b ''target'')) \<and>
           \<not> isFunction (getAt (this_object example_callee) (getProp ?b ''method''))"
    by code_simp
  have ua: "getProp ?a ''uuid'' = VNum (Finite 42)" and ub: "getProp ?b ''uuid'' = VNum (Finite 42)"
    by code_simp+
  show ?thesis
    using C6_unknown_method_rejected [of ?a example_callee example_env]
      C6_unknown_method_rejected [of ?b example_callee example_env] a1 a2 a3 b1 b2 b3
    unfolding ua ub by blast
qed

text \<open>
  As the specification states it, for every request that carries an unrecognized target,
  the claim fails: with such a target the endpoint falls back on itself, and the request
  below reaches its method \<^verbatim>\<open>getServiceMethods\<close>.
\<close>

theorem C6_unknown_target_counterexample:
  "isSafeInteger (getProp (example_request (VNum (Finite 42)) (VStr ''shazam'')
                     (VStr ''getServiceMethods'')) ''uuid'') \<and>
   isValidWorkerServiceMethodCall
     (example_request (VNum (Finite 42)) (VStr ''shazam'') (VStr ''getServiceMethods'')) \<and>
   getAt (this_object example_callee) (VStr ''shazam'') = VUndefined \<and>
   onmessage example_env example_callee
     (example_request (VNum (Finite 42)) (VStr ''shazam'') (VStr ''getServiceMethods'')) =
     Some [literal [(''uuid'', VNum (Finite 42)), (''method'', VStr ''resolve''),
              (''args'', VArr [VArr [VStr ''asyncwork'', VStr ''syncwork'', VStr ''stop'']])]]"
  by code_simp






subsection \<open>The caller endpoint\<close>

text \<open>
  The claims about the caller endpoint are stated of every instance that satisfies
  \<open>proxy_inv\<close>, which every instance that a program can come to hold does (\<open>reachable_inv\<close>).
\<close>

text \<open>
  Claim C2. When two calls are outstanding together, their identifiers differ, and when
  the caller endpoint processes the response that carries the identifier of the second
  call before the response that carries the identifier of the first, the promise of each
  call is settled with the value, or the error, of the response that carries its own
  identifier.
\<close>

theorem C2_matching_by_uuid:
  assumes "proxy_inv sp"
    and "call cls t1 sp spec1 = (p1, sp1)"
    and "call cls t2 sp1 spec2 = (p2, sp2)"
    and "getProp data1 ''uuid'' = uuid_value (call_uuid (promises sp2 ! p1))"
    and "getProp data2 ''uuid'' = uuid_value (call_uuid (promises sp2 ! p2))"
    and "getProp data1 ''method'' = VStr ''resolve'' \<or> getProp data1 ''method'' = VStr ''reject''"
    and "getProp data2 ''method'' = VStr ''resolve'' \<or> getProp data2 ''method'' = VStr ''reject''"
  shows "call_uuid (promises sp2 ! p1) \<noteq> call_uuid (promises sp2 ! p2) \<and>
     state (promises (proxy_onmessage (proxy_onmessage sp2 data2) data1) ! p1) =
       (if getProp data1 ''method'' = VStr ''resolve''
        then Fulfilled (first_argument (if isArrayLike (getProp data1 ''args'') then getProp data1 ''args'' else VArr []))
        else Failed (first_argument (if isArrayLike (getProp data1 ''args'') then getProp data1 ''args'' else VArr []))) \<and>
     state (promises (proxy_onmessage (proxy_onmessage sp2 data2) data1) ! p2) =
       (if getProp data2 ''method'' = VStr ''resolve''
        then Fulfilled (first_argument (if isArrayLike (getProp data2 ''args'') then getProp data2 ''args'' else VArr []))
        else Failed (first_argument (if isArrayLike (getProp data2 ''args'') then getProp data2 ''args'' else VArr [])))"
proof -
  let ?u1 = "next_index (calls sp)" and ?u2 = "Suc (next_index (calls sp))"
  note c1 = call_props [OF assms(1,2)]
  have inv1: "proxy_inv sp1" using call_inv [OF assms(1,2)] .
  note c2 = call_props [OF inv1 assms(3)]
  have p12: "p1 < p2" "p2 < length (promises sp2)" "p1 \<noteq> p2"
    using c1(1,2) c2(1,2) by simp_all
  have pr2: "promises sp2 ! p1 = \<lparr> call_uuid = ?u1,
              expires = t1 + or_else (call_timeout spec1) (timeout cls),
              continuation = Call_only, state = Pending \<rparr>"
    using c1(1,2) c2(2) by (simp add: nth_append)
  have pr2': "promises sp2 ! p2 = \<lparr> call_uuid = ?u2,
              expires = t2 + or_else (call_timeout spec2) (timeout cls),
              continuation = Call_only, state = Pending \<rparr>"
    using c1(7) c2(1,2) by (simp add: nth_append)
  have e1: "map_of (entries (calls sp2)) ?u1 = Some (resolver p1)"
    using c1(3,7) c2(4) [of ?u1] by simp
  have e2: "map_of (entries (calls sp2)) ?u2 = Some (resolver p2)"
    using c1(7) c2(3) by simp
  let ?a2 = "first_argument (if isArrayLike (getProp data2 ''args'') then getProp data2 ''args'' else VArr [])"
  let ?a1 = "first_argument (if isArrayLike (getProp data1 ''args'') then getProp data1 ''args'' else VArr [])"
  let ?r2 = "if getProp data2 ''method'' = VStr ''resolve'' then Fulfilled ?a2 else Failed ?a2"
  let ?r1 = "if getProp data1 ''method'' = VStr ''resolve'' then Fulfilled ?a1 else Failed ?a1"
  have d2: "getProp data2 ''uuid'' = uuid_value ?u2" using assms(5) pr2' by simp
  have d1: "getProp data1 ''uuid'' = uuid_value ?u1" using assms(4) pr2 by simp
  have s3: "proxy_onmessage sp2 data2 = settle (forget sp2 ?u2) p2 ?r2"
    using assms(7) onmessage_resolve [OF e2 d2] onmessage_reject [OF e2 d2] by auto
  let ?sp3 = "settle (forget sp2 ?u2) p2 ?r2"
  have e1': "map_of (entries (calls ?sp3)) ?u1 = Some (resolver p1)"
    using e1 by simp
  have s4: "proxy_onmessage ?sp3 data1 = settle (forget ?sp3 ?u1) p1 ?r1"
    using assms(6) onmessage_resolve [OF e1' d1] onmessage_reject [OF e1' d1] by auto
  have "state (promises (settle (forget ?sp3 ?u1) p1 ?r1) ! p1) = ?r1"
    using p12 pr2 by (intro settle_pending(1)) simp_all
  moreover have "state (promises (settle (forget ?sp3 ?u1) p1 ?r1) ! p2) = ?r2"
    using p12 pr2' by (simp add: settle_pending(1))
  ultimately show ?thesis using s3 s4 pr2 pr2' by simp
qed

text \<open>Two calls of a new endpoint; the second is resolved before the first is rejected.\<close>

theorem C2_matching_by_uuid_witness:
  "state (promises (proxy_onmessage (proxy_onmessage
       (snd (forward ServiceProxyClass_initial 2
          (snd (forward ServiceProxyClass_initial 1 example_proxy (VStr ''syncwork'') []))
          (VStr ''asyncwork'') []))
       (example_response 2 (VStr ''resolve'') (VStr ''second'')))
       (example_response 1 (VStr ''reject'') (VStr ''first''))) ! 1) = Failed (VStr ''first'') \<and>
   state (promises (proxy_onmessage (proxy_onmessage
       (snd (forward ServiceProxyClass_initial 2
          (snd (forward ServiceProxyClass_initial 1 example_proxy (VStr ''syncwork'') []))
          (VStr ''asyncwork'') []))
       (example_response 2 (VStr ''resolve'') (VStr ''second'')))
       (example_response 1 (VStr ''reject'') (VStr ''first''))) ! 2) = Fulfilled (VStr ''second'')"
proof -
  let ?spec1 = "\<lparr> call_target = VStr ''service'', call_method = VStr ''syncwork'',
                  call_args = VArr [], call_timeout = None \<rparr>"
  let ?spec2 = "\<lparr> call_target = VStr ''service'', call_method = VStr ''asyncwork'',
                  call_args = VArr [], call_timeout = None \<rparr>"
  let ?sp1 = "snd (forward ServiceProxyClass_initial 1 example_proxy (VStr ''syncwork'') [])"
  let ?sp2 = "snd (forward ServiceProxyClass_initial 2 ?sp1 (VStr ''asyncwork'') [])"
  let ?d1 = "example_response 1 (VStr ''reject'') (VStr ''first'')"
  let ?d2 = "example_response 2 (VStr ''resolve'') (VStr ''second'')"
  have c1: "call ServiceProxyClass_initial 1 example_proxy ?spec1 = (1, ?sp1)"
    by (simp add: forward_def call_def example_proxy_state Let_def split: prod.splits)
  have l1: "length (promises ?sp1) = 2"
    using call_promise(5) [OF example_proxy_inv c1] by simp
  have c2: "call ServiceProxyClass_initial 2 ?sp1 ?spec2 = (2, ?sp2)"
    using l1 by (simp add: forward_def call_def Let_def split: prod.splits)
  have i1: "proxy_inv ?sp1" using call_inv [OF example_proxy_inv c1] .
  have n1: "next_index (calls ?sp1) = 2"
    using call_props(7) [OF example_proxy_inv c1] by (simp add: example_proxy_state)
  have k2: "call_uuid (promises ?sp2 ! 2) = 2"
    using call_promise(2) [OF i1 c2] n1 by simp
  have "promises ?sp2 ! 1 = promises ?sp1 ! 1"
    using call_promise(3) [OF i1 c2, of 1] by simp
  then have k1: "call_uuid (promises ?sp2 ! 1) = 1"
    using call_promise(2) [OF example_proxy_inv c1] by (simp add: example_proxy_state)
  have u1: "getProp ?d1 ''uuid'' = uuid_value (call_uuid (promises ?sp2 ! 1))"
    and u2: "getProp ?d2 ''uuid'' = uuid_value (call_uuid (promises ?sp2 ! 2))"
    unfolding k1 k2 by (simp_all add: example_response_fields)
  have m1: "getProp ?d1 ''method'' = VStr ''resolve'' \<or> getProp ?d1 ''method'' = VStr ''reject''"
    and m2: "getProp ?d2 ''method'' = VStr ''resolve'' \<or> getProp ?d2 ''method'' = VStr ''reject''"
    by (simp_all add: example_response_fields)
  show ?thesis
    using C2_matching_by_uuid [OF example_proxy_inv c1 c2 u1 u2 m1 m2]
    by (simp add: example_response_fields isArrayLike_VArr first_argument_VArr)
qed






text \<open>
  Claim C9. \<open>terminate\<close> posts a call of \<^verbatim>\<open>onterminate\<close> as \<open>call\<close> does, and its promise
  is pending. When the response resolves the call, the worker is terminated and the
  promise of \<open>terminate\<close> is fulfilled; when the response rejects the call, or when the
  call times out, the promise fails with that error, the worker is terminated no more than
  it was, and nothing is posted. \<open>kill\<close> terminates the worker whatever the state; it posts
  nothing and leaves the calls and the promises as they are.
\<close>

theorem C9_terminate_and_kill:
  assumes "proxy_inv sp" and "terminate cls now sp = (p, sp1)"
  shows "posted sp1 = posted sp @
       [literal [(''method'', VStr ''onterminate''),
                 (''uuid'', uuid_value (call_uuid (promises sp1 ! p)))]] \<and>
     terminated sp1 = terminated sp \<and>
     terminate_promise sp1 p = Pending \<and>
     (\<forall>data. getProp data ''uuid'' = uuid_value (call_uuid (promises sp1 ! p)) \<and>
             getProp data ''method'' = VStr ''resolve'' \<longrightarrow>
        terminated (proxy_onmessage sp1 data) \<and>
        terminate_promise (proxy_onmessage sp1 data) p = Fulfilled VUndefined) \<and>
     (\<forall>data. getProp data ''uuid'' = uuid_value (call_uuid (promises sp1 ! p)) \<and>
             getProp data ''method'' = VStr ''reject'' \<longrightarrow>
        terminated (proxy_onmessage sp1 data) = terminated sp \<and>
        posted (proxy_onmessage sp1 data) = posted sp1 \<and>
        terminate_promise (proxy_onmessage sp1 data) p =
          Failed (first_argument (if isArrayLike (getProp data ''args'')
                                  then getProp data ''args'' else VArr []))) \<and>
     (\<forall>t. expires (promises sp1 ! p) \<le> t \<longrightarrow>
        terminated (elapse t sp1) = terminated sp \<and>
        posted (elapse t sp1) = posted sp1 \<and>
        terminate_promise (elapse t sp1) p = Failed timeout_error) \<and>
     terminated (kill sp) \<and> posted (kill sp) = posted sp \<and> calls (kill sp) = calls sp \<and>
     promises (kill sp) = promises sp"
proof -
  note t = terminate_props [OF assms]
  have u: "call_uuid (promises sp1 ! p) = next_index (calls sp)" using t(2) by simp
  have 1: "posted sp1 = posted sp @
       [literal [(''method'', VStr ''onterminate''),
                 (''uuid'', uuid_value (call_uuid (promises sp1 ! p)))]]"
    using t(4) u by simp
  have 2: "terminate_promise sp1 p = Pending" using t(2) by (simp add: terminate_promise_def)
  have 3: "terminated (proxy_onmessage sp1 data) \<and>
        terminate_promise (proxy_onmessage sp1 data) p = Fulfilled VUndefined"
    if "getProp data ''uuid'' = uuid_value (call_uuid (promises sp1 ! p)) \<and>
             getProp data ''method'' = VStr ''resolve''" for data
  proof -
    from that have d: "getProp data ''uuid'' = uuid_value (next_index (calls sp))"
      and m: "getProp data ''method'' = VStr ''resolve''" using u by simp_all
    show ?thesis
      unfolding onmessage_resolve [OF t(3) d m]
      using t(1,2) by (simp add: settle_terminated terminate_promise_def settle_pending)
  qed
  have 4: "terminated (proxy_onmessage sp1 data) = terminated sp \<and>
        posted (proxy_onmessage sp1 data) = posted sp1 \<and>
        terminate_promise (proxy_onmessage sp1 data) p =
          Failed (first_argument (if isArrayLike (getProp data ''args'')
                                  then getProp data ''args'' else VArr []))"
    if "getProp data ''uuid'' = uuid_value (call_uuid (promises sp1 ! p)) \<and>
             getProp data ''method'' = VStr ''reject''" for data
  proof -
    from that have d: "getProp data ''uuid'' = uuid_value (next_index (calls sp))"
      and m: "getProp data ''method'' = VStr ''reject''" using u by simp_all
    show ?thesis
      unfolding onmessage_reject [OF t(3) d m]
      using t(1,2,5) by (simp add: settle_terminated terminate_promise_def settle_pending)
  qed
  have 5: "terminated (elapse t sp1) = terminated sp \<and>
        posted (elapse t sp1) = posted sp1 \<and>
        terminate_promise (elapse t sp1) p = Failed timeout_error"
    if "expires (promises sp1 ! p) \<le> t" for t
    using that t(1,2,5) by (simp add: terminate_promise_def elapse_state)
  have 6: "terminated (kill sp) \<and> posted (kill sp) = posted sp \<and> calls (kill sp) = calls sp \<and>
     promises (kill sp) = promises sp"
    by (simp add: kill_def)
  show ?thesis using 1 t(5) 2 3 4 5 6 by blast
qed

text \<open>\<open>terminate\<close> on a new endpoint, at the time \<open>10\<close>.\<close>

theorem C9_terminate_and_kill_witness:
  "last (posted (snd (terminate ServiceProxyClass_initial 10 example_proxy))) =
     literal [(''method'', VStr ''onterminate''), (''uuid'', uuid_value 1)] \<and>
   terminated (proxy_onmessage (snd (terminate ServiceProxyClass_initial 10 example_proxy))
      (example_response 1 (VStr ''resolve'') VUndefined)) \<and>
   terminate_promise (proxy_onmessage (snd (terminate ServiceProxyClass_initial 10 example_proxy))
      (example_response 1 (VStr ''resolve'') VUndefined)) 1 = Fulfilled VUndefined \<and>
   \<not> terminated (proxy_onmessage (snd (terminate ServiceProxyClass_initial 10 example_proxy))
      (example_response 1 (VStr ''reject'') (VStr ''busy''))) \<and>
   terminate_promise (proxy_onmessage (snd (terminate ServiceProxyClass_initial 10 example_proxy))
      (example_response 1 (VStr ''reject'') (VStr ''busy''))) 1 = Failed (VStr ''busy'') \<and>
   \<not> terminated (elapse 180010 (snd (terminate ServiceProxyClass_initial 10 example_proxy))) \<and>
   terminate_promise (elapse 180010 (snd (terminate ServiceProxyClass_initial 10 example_proxy))) 1 =
     Failed timeout_error \<and>
   terminated (kill example_proxy) \<and> posted (kill example_proxy) = posted example_proxy"
proof -
  let ?sp1 = "snd (terminate ServiceProxyClass_initial 10 example_proxy)"
  let ?ok = "example_response 1 (VStr ''resolve'') VUndefined"
  let ?ko = "example_response 1 (VStr ''reject'') (VStr ''busy'')"
  have c: "terminate ServiceProxyClass_initial 10 example_proxy = (1, ?sp1)"
    by (simp add: terminate_def call_def example_proxy_state Let_def split: prod.splits)
  have pr: "promises ?sp1 ! 1 = \<lparr> call_uuid = 1, expires = 180010, continuation = Then_kill,
       state = Pending \<rparr>"
    using terminate_props(2) [OF example_proxy_inv c]
    by (simp add: example_proxy_state ServiceProxyClass_initial_def)
  have nt: "\<not> terminated example_proxy" by (simp add: example_proxy_state)
  have f: "getProp ?ok ''uuid'' = uuid_value (call_uuid (promises ?sp1 ! 1)) \<and>
             getProp ?ok ''method'' = VStr ''resolve''"
    "getProp ?ko ''uuid'' = uuid_value (call_uuid (promises ?sp1 ! 1)) \<and>
             getProp ?ko ''method'' = VStr ''reject''"
    "expires (promises ?sp1 ! 1) \<le> 180010"
    unfolding pr by (simp_all add: example_response_fields)
  note t = C9_terminate_and_kill [OF example_proxy_inv c]
  have 0: "last (posted ?sp1) = literal [(''method'', VStr ''onterminate''), (''uuid'', uuid_value 1)]"
    using t pr by simp
  have 1: "terminated (proxy_onmessage ?sp1 ?ok) \<and>
        terminate_promise (proxy_onmessage ?sp1 ?ok) 1 = Fulfilled VUndefined"
    using t f(1) by blast
  have 2: "terminated (proxy_onmessage ?sp1 ?ko) = terminated example_proxy \<and>
        terminate_promise (proxy_onmessage ?sp1 ?ko) 1 =
          Failed (first_argument (if isArrayLike (getProp ?ko ''args'')
                                  then getProp ?ko ''args'' else VArr []))"
    using t f(2) by blast
  have 3: "terminated (elapse 180010 ?sp1) = terminated example_proxy \<and>
        terminate_promise (elapse 180010 ?sp1) 1 = Failed timeout_error"
    using t f(3) by blast
  have 4: "terminated (kill example_proxy) \<and> posted (kill example_proxy) = posted example_proxy"
    using t by blast
  show ?thesis
    using 0 1 2 3 4 nt
    by (simp add: example_response_fields isArrayLike_VArr first_argument_VArr)
qed

text \<open>
  Claim C10. The default timeout of a call is the static property of the class:
  \<open>newInstance\<close> with a timeout overwrites it, and an instance made afterwards with no
  timeout of its own leaves it as it finds it, so that its calls expire after the timeout
  given to the earlier instance and not after the 180 000 ms of the class as loaded.
\<close>

theorem C10_static_timeout:
  assumes "t \<noteq> 0"
    and "newInstance cls now1 path1 (Some \<lparr> opts_timeout = Some t \<rparr>) = (cls1, sp1)"
    and "newInstance cls1 now2 path2 None = (cls2, sp2)"
  shows "timeout cls1 = t \<and> cls2 = cls1 \<and>
     expires (promises sp2 ! 0) = now2 + t \<and>
     (\<forall>now3 spec. call_timeout spec = None \<longrightarrow>
        expires (promises (snd (call cls2 now3 sp2 spec)) ! fst (call cls2 now3 sp2 spec)) =
          now3 + t) \<and>
     timeout ServiceProxyClass_initial = 180000"
proof -
  have c1: "timeout cls1 = t" using assms(1,2) by (auto simp: newInstance_def Let_def)
  have c2: "cls2 = cls1" and s2: "sp2 = new_ServiceProxyClass cls1 now2 path2"
    using assms(3) by (auto simp: newInstance_def Let_def)
  have e: "expires (promises sp2 ! 0) = now2 + t"
    using c1 by (simp add: s2 new_ServiceProxyClass_def call_def push_def newIndexedQueue_def
        and_then_def Let_def)
  have "expires (promises (snd (call cls2 now3 sp2 spec)) ! fst (call cls2 now3 sp2 spec)) =
          now3 + t" if "call_timeout spec = None" for now3 spec
    using that c1 c2 by (simp add: call_def push_def Let_def)
  then show ?thesis using c1 c2 e by (simp add: ServiceProxyClass_initial_def)
qed

text \<open>
  An instance made with the timeout \<open>5000\<close>, then one made with none at the time \<open>7\<close>; and
  the latter without the former.
\<close>

theorem C10_static_timeout_witness:
  "timeout (fst (newInstance ServiceProxyClass_initial 0 ''a.js''
       (Some \<lparr> opts_timeout = Some 5000 \<rparr>))) = 5000 \<and>
   expires (promises (snd (newInstance
       (fst (newInstance ServiceProxyClass_initial 0 ''a.js''
          (Some \<lparr> opts_timeout = Some 5000 \<rparr>))) 7 ''b.js'' None)) ! 0) = 5007 \<and>
   expires (promises (snd (newInstance ServiceProxyClass_initial 7 ''b.js'' None)) ! 0) = 180007"
proof -
  let ?first = "newInstance ServiceProxyClass_initial 0 ''a.js'' (Some \<lparr> opts_timeout = Some 5000 \<rparr>)"
  let ?second = "newInstance (fst ?first) 7 ''b.js'' None"
  have n: "(5000::nat) \<noteq> 0" by simp
  have a: "?first = (fst ?first, snd ?first)" and b: "?second = (fst ?second, snd ?second)"
    by simp_all
  have d: "expires (promises (snd (newInstance ServiceProxyClass_initial 7 ''b.js'' None)) ! 0) =
      180007"
    by (simp add: newInstance_def new_ServiceProxyClass_def call_def push_def
        newIndexedQueue_def and_then_def ServiceProxyClass_initial_def Let_def)
  show ?thesis using C10_static_timeout [OF n a b] d by simp
qed

subsection \<open>The round trip\<close>



end
